theory Spec2Isabelle
  imports Main
begin

section \<open>The MultiplePlaylists plugin (src/plugins/multipleplaylists/src/index.ts)\<close>

text \<open>
  The plugin adds one context-menu button to a music client. A click resolves the
  right-clicked song, opens a modal listing the user's playlists as checkboxes, and adds
  the song to every checked playlist. The host (Redux store, \<open>MediaItem\<close>, \<open>Playlist\<close>,
  \<open>ContextMenu\<close>) is outside the plugin: its answers are parameters of the model, its
  calls are recorded in the state.

  Each function of the source is a function on the state of the page. An awaited host
  call is a value: what it returned, or that it threw. The \<open>setTimeout\<close> callbacks sit
  in a queue with their due times and run when the clock of the model reaches them.
  The diagnostics written with \<open>trace\<close> change nothing that the page shows and are left
  out.
\<close>

subsection \<open>JavaScript values that the code tests for truthiness\<close>

text \<open>
  Identifiers of users and items are numbers or strings, or missing (\<open>undefined\<close>,
  \<open>null\<close>). The code compares them with \<open>===\<close> (equality of the datatype) and tests
  them with \<open>if (x)\<close> and \<open>!x\<close> (\<open>truthy\<close>).
\<close>

datatype jsval = Undefined | Null | Num int | Str string

fun truthy :: "jsval \<Rightarrow> bool" where
  "truthy Undefined = False"
| "truthy Null = False"
| "truthy (Num n) = (n \<noteq> 0)"
| "truthy (Str s) = (s \<noteq> [])"

subsection \<open>The Redux snapshot and the playlist list of the modal\<close>

record creator =
  creator_id :: jsval

record playlist =
  playlist_uuid :: string
  playlist_title :: "string option"
  playlist_type :: string
  playlist_creator :: "creator option"
  playlist_numberOfTracks :: "nat option"

text \<open>
  \<open>user_meta_id\<close> is the value of \<open>state.user?.meta?.id\<close> (\<open>Undefined\<close> when a link of
  the chain is missing); \<open>content_playlists\<close> is \<open>state.content?.playlists || {}\<close> as the
  list of its entries in the order of \<open>Object.values\<close>; an entry whose value is \<open>null\<close>
  or \<open>undefined\<close> is \<open>None\<close>.
\<close>

record redux_state =
  user_meta_id :: jsval
  content_playlists :: "(string \<times> playlist option) list"

text \<open>One checkbox row of \<open>#playlist-list\<close>, and what the element's \<open>innerHTML\<close> holds.\<close>

record label =
  data_playlist_id :: string
  label_title :: string
  label_tracks :: nat

datatype inner_html =
    Initial
  | Para string string
  | Labels "label list"

text \<open>\<open>playlist.creator?.id\<close>\<close>

definition playlistCreatorId :: "playlist \<Rightarrow> jsval" where
  "playlistCreatorId p =
     (case playlist_creator p of None \<Rightarrow> Undefined | Some c \<Rightarrow> creator_id c)"

text \<open>The callback of \<open>Object.values(playlists).filter\<close> (lines 208-231).\<close>

definition isCurrentUserPlaylist :: "jsval \<Rightarrow> playlist option \<Rightarrow> bool" where
  "isCurrentUserPlaylist currentUserId entry =
     (case entry of
        None \<Rightarrow> False
      | Some p \<Rightarrow>
          if playlist_type p \<noteq> ''USER'' then False
          else if \<not> truthy currentUserId then False
          else playlistCreatorId p = currentUserId)"

fun playlistsArray :: "jsval \<Rightarrow> playlist option list \<Rightarrow> playlist list" where
  "playlistsArray currentUserId [] = []"
| "playlistsArray currentUserId (None # es) = playlistsArray currentUserId es"
| "playlistsArray currentUserId (Some p # es) =
     (if isCurrentUserPlaylist currentUserId (Some p)
      then p # playlistsArray currentUserId es
      else playlistsArray currentUserId es)"

text \<open>The template of one row (lines 242-260): \<open>title || 'Untitled Playlist'\<close>,
  \<open>numberOfTracks || 0\<close>.\<close>

definition playlist_label :: "playlist \<Rightarrow> label" where
  "playlist_label p =
     \<lparr> data_playlist_id = playlist_uuid p,
       label_title = (case playlist_title p of
                        None \<Rightarrow> ''Untitled Playlist''
                      | Some t \<Rightarrow> if t = [] then ''Untitled Playlist'' else t),
       label_tracks = (case playlist_numberOfTracks p of None \<Rightarrow> 0 | Some n \<Rightarrow> n) \<rparr>"

definition no_playlists_found :: inner_html where
  "no_playlists_found = Para ''opacity: 0.7;'' ''No playlists found. Create some playlists first!''"

definition unable_to_load :: inner_html where
  "unable_to_load = Para ''color: #ff6b6b;'' ''Unable to load your playlists. Please try again.''"

text \<open>
  \<open>populatePlaylistListFromRedux\<close> (lines 188-265). The argument \<open>playlistContainer\<close> is
  the result of \<open>document.querySelector('#playlist-list')\<close>: \<open>None\<close> when there is no
  such element, else its \<open>innerHTML\<close>; the result is the \<open>innerHTML\<close> afterwards.
  On the values of this model nothing inside the \<open>try\<close> throws, so the \<open>catch\<close> of line
  261 is not a branch.
\<close>

definition populatePlaylistListFromRedux ::
  "redux_state \<Rightarrow> inner_html option \<Rightarrow> inner_html option" where
  "populatePlaylistListFromRedux state playlistContainer =
     (case playlistContainer of
        None \<Rightarrow> None
      | Some _ \<Rightarrow>
          let playlists = content_playlists state in
          if length playlists = 0 then Some no_playlists_found
          else
            let currentUserId = user_meta_id state;
                arr = playlistsArray currentUserId (map snd playlists)
            in if length playlists > 0 \<and> length arr = 0 \<and> truthy currentUserId
               then Some unable_to_load
               else Some (Labels (map playlist_label arr)))"

text \<open>The checkbox rows that an \<open>innerHTML\<close> shows.\<close>

fun surfaced :: "inner_html option \<Rightarrow> label list" where
  "surfaced (Some (Labels ls)) = ls"
| "surfaced _ = []"

subsection \<open>Songs and the host\<close>

text \<open>
  The outcome of a host call that the code guards with \<open>try\<close>/\<open>catch\<close>: it returns, or
  it throws (for an awaited promise: it rejects).
\<close>

datatype 'a call = Returns 'a | Throws

record artist =
  artist_name :: "string option"

text \<open>
  A \<open>MediaItem\<close>. The accessors \<open>title\<close>, \<open>artist\<close> and \<open>artists\<close> are tested for presence
  (\<open>song.title ? \<dots>\<close>), so each is optional; a present accessor is given by the outcome
  of calling and awaiting it. \<open>artists()\<close> yields an array of promises, of which the code
  awaits the first.
\<close>

record song =
  song_id :: jsval
  song_contentType :: string
  song_title :: "string option call option"
  song_artist :: "artist option call option"
  song_artists :: "artist option call list option call option"

text \<open>The argument of \<open>redux.actions["content/ADD_MEDIA_ITEMS_TO_PLAYLIST"]\<close>.\<close>

record add_command =
  playlistUUID :: string
  mediaItemIdsToAdd :: "jsval list"
  addToIndex :: int
  onDupes :: string
  showNotificationFlag :: bool

text \<open>
  What the plugin asks of the host. \<open>add_throws host before c\<close> tells whether dispatching
  \<open>c\<close> throws when \<open>before\<close> are the add commands dispatched so far; \<open>fromId\<close> is
  \<open>MediaItem.fromId\<close>; \<open>getUserPlaylists\<close> and \<open>getMyPlaylists\<close> are the two optional
  methods of \<open>Playlist\<close> that \<open>populatePlaylistList\<close> probes, given by the rows their
  playlists render to.
\<close>

record host =
  redux_getState :: redux_state
  fromId :: "jsval \<Rightarrow> string \<Rightarrow> song option call"
  add_throws :: "add_command list \<Rightarrow> add_command \<Rightarrow> bool"
  getUserPlaylists :: "label list call option"
  getMyPlaylists :: "label list call option"

subsection \<open>The page: document, timers, calls made, and the plugin's variables\<close>

datatype severity = Success | Warning | Error

record toast =
  toast_id :: nat
  textContent :: string
  background :: string
  transform :: string

record overlay =
  overlay_song :: song
  overlay_songTitle :: string
  overlay_songArtist :: string
  playlist_list :: inner_html

text \<open>
  The callbacks handed to \<open>setTimeout\<close>: the slide-in of a toast (line 344), the start of
  its removal (line 349), its removal (line 351), and the deferred body of the button's
  click handler (line 379).
\<close>

datatype task = AnimateIn nat | AutoRemove nat | Detach nat | ClickTimeout

text \<open>
  \<open>clock\<close> counts milliseconds; \<open>timers\<close> holds the pending \<open>setTimeout\<close> callbacks with
  their due times; \<open>toasts\<close> and \<open>overlays\<close> are the children of \<open>document.body\<close> that the
  plugin created, in document order; \<open>next_node\<close> names the next element created.
  \<open>shown\<close>, \<open>dispatched\<close>, \<open>resolved\<close> and \<open>menu_closes\<close> record the calls of
  \<open>showNotification\<close>, of the add action, of \<open>MediaItem.fromId\<close> and of
  \<open>contextMenu/CLOSE\<close>. \<open>contextMenuSongId\<close> (\<open>Null\<close> at first) and
  \<open>contextMenuContentType\<close> are the variables of \<open>setupContextMenuIntegration\<close>.
\<close>

record page =
  clock :: nat
  timers :: "(nat \<times> task) list"
  toasts :: "toast list"
  overlays :: "overlay list"
  next_node :: nat
  shown :: "(string \<times> severity) list"
  dispatched :: "add_command list"
  resolved :: "(jsval \<times> string) list"
  menu_closes :: nat
  contextMenuSongId :: jsval
  contextMenuContentType :: string
  button_shown :: bool

text \<open>The page when \<open>init()\<close> has run and nothing has happened yet.\<close>

definition init :: page where
  "init = \<lparr> clock = 0, timers = [], toasts = [], overlays = [], next_node = 0, shown = [],
            dispatched = [], resolved = [], menu_closes = 0, contextMenuSongId = Null,
            contextMenuContentType = ''track'', button_shown = False \<rparr>"

subsection \<open>showNotification (lines 320-357)\<close>

definition toast_background :: "severity \<Rightarrow> string" where
  "toast_background type =
     (if type = Success then ''#4caf50'' else if type = Warning then ''#ff9800'' else ''#f44336'')"

definition showNotification :: "string \<Rightarrow> severity \<Rightarrow> page \<Rightarrow> page" where
  "showNotification message type w =
     (let notification = \<lparr> toast_id = next_node w, textContent = message,
                             background = toast_background type,
                             transform = ''translateX(300px)'' \<rparr>
      in w \<lparr> next_node := Suc (next_node w),
             toasts := toasts w @ [notification],
             shown := shown w @ [(message, type)],
             timers := timers w @ [(clock w + 50, AnimateIn (toast_id notification)),
                                   (clock w + 3000, AutoRemove (toast_id notification))] \<rparr>)"

definition set_transform :: "nat \<Rightarrow> string \<Rightarrow> page \<Rightarrow> page" where
  "set_transform n v w =
     w \<lparr> toasts := map (\<lambda>x. if toast_id x = n then x \<lparr> transform := v \<rparr> else x) (toasts w) \<rparr>"

text \<open>Whether the element \<open>n\<close> is a child of \<open>document.body\<close> (\<open>notification.parentNode\<close>).\<close>

definition attached :: "nat \<Rightarrow> page \<Rightarrow> bool" where
  "attached n w = (n \<in> toast_id ` set (toasts w))"

subsection \<open>showPlaylistSelector (lines 17-126) and populatePlaylistList (lines 129-185)\<close>

text \<open>
  \<open>song.title ? await song.title() : 'Unknown Song'\<close>, as the template literals print it
  (\<open>undefined\<close> prints as the word).
\<close>

definition songTitle :: "song \<Rightarrow> string call" where
  "songTitle song =
     (case song_title song of
        None \<Rightarrow> Returns ''Unknown Song''
      | Some Throws \<Rightarrow> Throws
      | Some (Returns None) \<Rightarrow> Returns ''undefined''
      | Some (Returns (Some t)) \<Rightarrow> Returns t)"

text \<open>\<open>x && x.name\<close> for an artist.\<close>

definition truthy_name :: "artist option \<Rightarrow> string option" where
  "truthy_name a =
     (case a of
        None \<Rightarrow> None
      | Some x \<Rightarrow> (case artist_name x of
                     None \<Rightarrow> None
                   | Some n \<Rightarrow> if n = [] then None else Some n))"

text \<open>Lines 50-72: every failure inside the \<open>try\<close> leaves \<open>'Unknown Artist'\<close>.\<close>

definition songArtist :: "song \<Rightarrow> string" where
  "songArtist song =
     (case song_artist song of
        Some Throws \<Rightarrow> ''Unknown Artist''
      | Some (Returns a) \<Rightarrow>
          (case truthy_name a of None \<Rightarrow> ''Unknown Artist'' | Some n \<Rightarrow> n)
      | None \<Rightarrow>
          (case song_artists song of
             None \<Rightarrow> ''Unknown Artist''
           | Some Throws \<Rightarrow> ''Unknown Artist''
           | Some (Returns None) \<Rightarrow> ''Unknown Artist''
           | Some (Returns (Some [])) \<Rightarrow> ''Unknown Artist''
           | Some (Returns (Some (Throws # _))) \<Rightarrow> ''Unknown Artist''
           | Some (Returns (Some (Returns firstArtist # _))) \<Rightarrow>
               (case truthy_name firstArtist of None \<Rightarrow> ''Unknown Artist'' | Some n \<Rightarrow> n)))"

definition api_rows :: "label list \<Rightarrow> inner_html" where
  "api_rows rows = (if length rows = 0 then no_playlists_found else Labels rows)"

text \<open>
  The new content of the element that \<open>document.querySelector('#playlist-list')\<close> finds.
\<close>

definition playlist_list_content :: "host \<Rightarrow> inner_html \<Rightarrow> inner_html" where
  "playlist_list_content h old =
     (let fallback = (case populatePlaylistListFromRedux (redux_getState h) (Some old) of
                        None \<Rightarrow> old | Some new \<Rightarrow> new)
      in case getUserPlaylists h of
           Some (Returns ps) \<Rightarrow> api_rows ps
         | Some Throws \<Rightarrow> fallback
         | None \<Rightarrow>
             (case getMyPlaylists h of
                Some (Returns ps) \<Rightarrow> api_rows ps
              | Some Throws \<Rightarrow> fallback
              | None \<Rightarrow> fallback))"

text \<open>
  \<open>querySelector\<close> returns the first match in document order: the list of the oldest
  overlay still open.
\<close>

definition populatePlaylistList :: "host \<Rightarrow> page \<Rightarrow> page" where
  "populatePlaylistList h w =
     (case overlays w of
        [] \<Rightarrow> w
      | ov # rest \<Rightarrow>
          w \<lparr> overlays := ov \<lparr> playlist_list := playlist_list_content h (playlist_list ov) \<rparr> # rest \<rparr>)"

text \<open>
  The title is awaited outside any \<open>try\<close> (line 49), before the overlay is appended
  (line 103): when it throws, the function throws and the page is as before.
\<close>

definition showPlaylistSelector :: "host \<Rightarrow> song \<Rightarrow> page \<Rightarrow> page call" where
  "showPlaylistSelector h song w =
     (case songTitle song of
        Throws \<Rightarrow> Throws
      | Returns t \<Rightarrow>
          let ov = \<lparr> overlay_song = song, overlay_songTitle = t,
                     overlay_songArtist = songArtist song, playlist_list = Initial \<rparr>
          in Returns (populatePlaylistList h (w \<lparr> overlays := overlays w @ [ov] \<rparr>)))"

subsection \<open>addToSelectedPlaylists (lines 268-317)\<close>

text \<open>How a template literal prints a count.\<close>

function show_nat :: "nat \<Rightarrow> string" where
  "show_nat n =
     (if n < 10 then [char_of (48 + n)]
      else show_nat (n div 10) @ [char_of (48 + n mod 10)])"
  by pat_completeness auto
termination
  by (relation "measure id") auto

declare show_nat.simps [simp del]

definition dq :: string where
  "dq = [CHR 0x22]"

text \<open>The object literal of lines 287-293.\<close>

definition add_media_item :: "song \<Rightarrow> string \<Rightarrow> add_command" where
  "add_media_item song playlistId =
     \<lparr> playlistUUID = playlistId, mediaItemIdsToAdd = [song_id song], addToIndex = - 1,
       onDupes = ''SKIP'', showNotificationFlag = False \<rparr>"

text \<open>
  The loop of lines 284-299 over \<open>selectedPlaylistIds\<close>, on the two counters and the
  page. A command that throws has been dispatched all the same.
\<close>

fun add_each :: "host \<Rightarrow> song \<Rightarrow> string list \<Rightarrow> nat \<times> nat \<times> page \<Rightarrow> nat \<times> nat \<times> page" where
  "add_each h song [] acc = acc"
| "add_each h song (playlistId # rest) (successCount, errorCount, w) =
     (let c = add_media_item song playlistId;
          w' = w \<lparr> dispatched := dispatched w @ [c] \<rparr>
      in if add_throws h (dispatched w) c
         then add_each h song rest (successCount, Suc errorCount, w')
         else add_each h song rest (Suc successCount, errorCount, w'))"

text \<open>Lines 303-305.\<close>

definition result_message :: "string \<Rightarrow> nat \<Rightarrow> nat \<Rightarrow> string" where
  "result_message t successCount errorCount =
     (if successCount > 0
      then dq @ t @ dq @ '' added to '' @ show_nat successCount @ '' playlist'' @
           (if successCount > 1 then ''s'' else '''') @
           '' ('' @ show_nat errorCount @ '' failed)''
      else ''Failed to add '' @ dq @ t @ dq @ '' to playlists'')"

text \<open>
  \<open>selectedPlaylistIds\<close> is what lines 270-271 read from the page: the
  \<open>data-playlist-id\<close> of the checked boxes, in document order.
\<close>

definition addToSelectedPlaylists :: "host \<Rightarrow> song \<Rightarrow> string list \<Rightarrow> page \<Rightarrow> page" where
  "addToSelectedPlaylists h song selectedPlaylistIds w =
     (if length selectedPlaylistIds = 0
      then showNotification ''Please select at least one playlist'' Error w
      else
        case songTitle song of
          Throws \<Rightarrow> showNotification ''Error adding song to playlists'' Error w
        | Returns t \<Rightarrow>
            (case add_each h song selectedPlaylistIds (0, 0, w) of
               (successCount, errorCount, w') \<Rightarrow>
                 if errorCount > 0
                 then showNotification (result_message t successCount errorCount) Error w'
                 else w'))"

text \<open>The two counters when the loop ends.\<close>

definition tally :: "host \<Rightarrow> song \<Rightarrow> string list \<Rightarrow> page \<Rightarrow> nat \<times> nat" where
  "tally h song selectedPlaylistIds w =
     (case add_each h song selectedPlaylistIds (0, 0, w) of
        (successCount, errorCount, w') \<Rightarrow> (successCount, errorCount))"

text \<open>
  Whether the \<open>i\<close>-th command of a batch throws, when \<open>before\<close> were dispatched before
  the batch.
\<close>

definition attempt_fails :: "host \<Rightarrow> add_command list \<Rightarrow> add_command list \<Rightarrow> nat \<Rightarrow> bool" where
  "attempt_fails h before cmds i = add_throws h (before @ take i cmds) (cmds ! i)"

text \<open>The positions of a selection whose command throws, and those whose command does not.\<close>

definition failed_attempts :: "host \<Rightarrow> song \<Rightarrow> string list \<Rightarrow> page \<Rightarrow> nat list" where
  "failed_attempts h song selectedPlaylistIds w =
     filter (attempt_fails h (dispatched w) (map (add_media_item song) selectedPlaylistIds))
       [0..<length selectedPlaylistIds]"

definition succeeded_attempts :: "host \<Rightarrow> song \<Rightarrow> string list \<Rightarrow> page \<Rightarrow> nat list" where
  "succeeded_attempts h song selectedPlaylistIds w =
     filter (\<lambda>i. \<not> attempt_fails h (dispatched w) (map (add_media_item song) selectedPlaylistIds) i)
       [0..<length selectedPlaylistIds]"

subsection \<open>The buttons of the modal (lines 109-125)\<close>

text \<open>\<open>document.body.removeChild(overlay)\<close> for the \<open>i\<close>-th overlay of the page.\<close>

definition remove_overlay :: "nat \<Rightarrow> page \<Rightarrow> page" where
  "remove_overlay i w = w \<lparr> overlays := take i (overlays w) @ drop (Suc i) (overlays w) \<rparr>"

text \<open>Cancel, or a click on the overlay outside the modal (lines 112-114, 121-125).\<close>

definition cancel_click :: "nat \<Rightarrow> page \<Rightarrow> page" where
  "cancel_click i w = (if i < length (overlays w) then remove_overlay i w else w)"

text \<open>
  "Add to Selected Playlists" on the \<open>i\<close>-th overlay (lines 116-119), with the boxes
  checked at that moment: the only call of \<open>addToSelectedPlaylists\<close>, for the song that
  the modal was opened for.
\<close>

definition add_click :: "host \<Rightarrow> nat \<Rightarrow> string list \<Rightarrow> page \<Rightarrow> page" where
  "add_click h i selectedPlaylistIds w =
     (if i < length (overlays w)
      then remove_overlay i
             (addToSelectedPlaylists h (overlay_song (overlays w ! i)) selectedPlaylistIds w)
      else w)"

subsection \<open>setupContextMenuIntegration (lines 366-431)\<close>

text \<open>
  The payload of \<open>ContextMenu.onMediaItem\<close>: not an object; an object with a
  \<open>mediaItems\<close> method; or anything else, iterated directly. The items are given by
  identifier and content type; \<open>Throws\<close> is an iteration that throws before its first item.
\<close>

datatype media_collection =
    NotAnObject
  | WithMediaItems "(jsval \<times> string) list call"
  | Iterable "(jsval \<times> string) list call"

fun capture_first :: "(jsval \<times> string) list call \<Rightarrow> page \<Rightarrow> page" where
  "capture_first Throws w = w \<lparr> contextMenuSongId := Null \<rparr>"
| "capture_first (Returns []) w = w"
| "capture_first (Returns ((i, t) # _)) w =
     w \<lparr> contextMenuSongId := i, contextMenuContentType := t \<rparr>"

definition onMediaItem :: "media_collection \<Rightarrow> page \<Rightarrow> page" where
  "onMediaItem mediaCollection w =
     (case mediaCollection of
        NotAnObject \<Rightarrow> w
      | WithMediaItems items \<Rightarrow> capture_first items w
      | Iterable items \<Rightarrow> capture_first items w) \<lparr> button_shown := True \<rparr>"

text \<open>The click handler (lines 374-397): close the menu, defer the rest by 100 ms.\<close>

definition onClick :: "page \<Rightarrow> page" where
  "onClick w = w \<lparr> menu_closes := Suc (menu_closes w),
                   timers := timers w @ [(clock w + 100, ClickTimeout)] \<rparr>"

text \<open>The deferred body (lines 380-395).\<close>

definition click_timeout :: "host \<Rightarrow> page \<Rightarrow> page" where
  "click_timeout h w =
     (if truthy (contextMenuSongId w)
      then
        let w1 = w \<lparr> resolved := resolved w @ [(contextMenuSongId w, contextMenuContentType w)] \<rparr>
        in case fromId h (contextMenuSongId w) (contextMenuContentType w) of
             Throws \<Rightarrow> showNotification ''Error loading song information'' Error w1
           | Returns None \<Rightarrow> showNotification ''Could not load song information'' Error w1
           | Returns (Some mediaItem) \<Rightarrow>
               (case showPlaylistSelector h mediaItem w1 of
                  Throws \<Rightarrow> showNotification ''Error loading song information'' Error w1
                | Returns w2 \<Rightarrow> w2)
      else showNotification ''No song selected'' Error w)"

text \<open>The identity that a click resolves.\<close>

definition captured :: "page \<Rightarrow> jsval \<times> string" where
  "captured w = (contextMenuSongId w, contextMenuContentType w)"

subsection \<open>Timers\<close>

fun run_task :: "host \<Rightarrow> task \<Rightarrow> page \<Rightarrow> page" where
  "run_task h (AnimateIn n) w = set_transform n ''translateX(0)'' w"
| "run_task h (AutoRemove n) w =
     (set_transform n ''translateX(300px)'' w) \<lparr> timers := timers w @ [(clock w + 200, Detach n)] \<rparr>"
| "run_task h (Detach n) w =
     (if attached n w then w \<lparr> toasts := filter (\<lambda>x. toast_id x \<noteq> n) (toasts w) \<rparr> else w)"
| "run_task h ClickTimeout w = click_timeout h w"

text \<open>The pending callback that is due first; among equal due times, the one set first.\<close>

fun earliest :: "(nat \<times> task) list \<Rightarrow> (nat \<times> task) option" where
  "earliest [] = None"
| "earliest (x # xs) =
     (case earliest xs of
        None \<Rightarrow> Some x
      | Some y \<Rightarrow> if fst x \<le> fst y then Some x else Some y)"

text \<open>
  An upper bound on the callbacks that a pending callback can lead to, itself
  included: the measure of the timer loop.
\<close>

fun task_weight :: "task \<Rightarrow> nat" where
  "task_weight (AnimateIn n) = 1"
| "task_weight (AutoRemove n) = 2"
| "task_weight (Detach n) = 1"
| "task_weight ClickTimeout = 4"

definition queue_weight :: "(nat \<times> task) list \<Rightarrow> nat" where
  "queue_weight q = sum_list (map (\<lambda>x. task_weight (snd x)) q)"

text \<open>
  Let time pass until \<open>t\<close>: run every callback due by then, in the order of the due
  times, each at its due time; then the clock stands at \<open>t\<close>.
\<close>

function run_until :: "host \<Rightarrow> nat \<Rightarrow> page \<Rightarrow> page" where
  "run_until h t w =
     (case earliest (timers w) of
        None \<Rightarrow> w \<lparr> clock := max (clock w) t \<rparr>
      | Some (due, task) \<Rightarrow>
          if due \<le> t
          then run_until h t
                 (run_task h task (w \<lparr> timers := remove1 (due, task) (timers w),
                                        clock := max (clock w) due \<rparr>))
          else w \<lparr> clock := max (clock w) t \<rparr>)"
  by pat_completeness auto

text \<open>
  The invariant of the timer loop behind the removal of a toast: the element \<open>n\<close> has
  been created, and either it is detached already, or its removal is pending by \<open>T\<close>,
  or the start of its removal is pending early enough for the removal to be due by \<open>T\<close>.
\<close>

definition removal_pending :: "nat \<Rightarrow> nat \<Rightarrow> page \<Rightarrow> bool" where
  "removal_pending n T w =
     (n < next_node w \<and>
      (\<not> attached n w \<or>
       (\<exists>d. (d, Detach n) \<in> set (timers w) \<and> d \<le> T) \<or>
       (\<exists>d. (d, AutoRemove n) \<in> set (timers w) \<and> clock w \<le> d \<and> d + 200 \<le> T)))"

subsection \<open>The pages that the plugin can be in\<close>

text \<open>
  From the page after \<open>init()\<close>, what can happen: the menu opens on some payload, the
  button is clicked, time passes, a button of an open modal is clicked.
\<close>

inductive reachable :: "host \<Rightarrow> page \<Rightarrow> bool" for h :: host where
  start: "reachable h init"
| menu_opened: "reachable h w \<Longrightarrow> reachable h (onMediaItem mediaCollection w)"
| button_clicked: "reachable h w \<Longrightarrow> reachable h (onClick w)"
| time_passed: "reachable h w \<Longrightarrow> reachable h (run_until h t w)"
| add_clicked: "reachable h w \<Longrightarrow> reachable h (add_click h i selectedPlaylistIds w)"
| cancel_clicked: "reachable h w \<Longrightarrow> reachable h (cancel_click i w)"

text \<open>Every open modal shows the title that its song resolved to at line 49.\<close>

definition modal_titles_ok :: "page \<Rightarrow> bool" where
  "modal_titles_ok w =
     list_all (\<lambda>ov. songTitle (overlay_song ov) = Returns (overlay_songTitle ov)) (overlays w)"

subsection \<open>Example inputs\<close>

definition my_mix :: playlist where
  "my_mix = \<lparr> playlist_uuid = ''p1'', playlist_title = Some ''Mix'', playlist_type = ''USER'',
               playlist_creator = Some \<lparr> creator_id = Num 7 \<rparr>,
               playlist_numberOfTracks = Some 3 \<rparr>"

definition their_mix :: playlist where
  "their_mix = \<lparr> playlist_uuid = ''p2'', playlist_title = Some ''Theirs'', playlist_type = ''USER'',
                  playlist_creator = Some \<lparr> creator_id = Num 8 \<rparr>,
                  playlist_numberOfTracks = None \<rparr>"

definition editorial :: playlist where
  "editorial = \<lparr> playlist_uuid = ''p4'', playlist_title = None, playlist_type = ''EDITORIAL'',
                  playlist_creator = None, playlist_numberOfTracks = Some 40 \<rparr>"

definition snapshot :: "jsval \<Rightarrow> redux_state" where
  "snapshot uid =
     \<lparr> user_meta_id = uid,
       content_playlists =
         [(''p1'', Some my_mix), (''p2'', Some their_mix), (''p3'', None), (''p4'', Some editorial)] \<rparr>"

definition tune :: song where
  "tune = \<lparr> song_id = Str ''s1'', song_contentType = ''track'',
             song_title = Some (Returns (Some ''Tune'')),
             song_artist = Some (Returns (Some \<lparr> artist_name = Some ''Ann'' \<rparr>)),
             song_artists = None \<rparr>"

text \<open>The same song when the host fails to resolve its title.\<close>

definition untitled :: song where
  "untitled = tune \<lparr> song_title := Some Throws \<rparr>"

text \<open>A host that knows the song \<open>s1\<close> and refuses every addition to the playlist \<open>B\<close>.\<close>

definition flaky :: host where
  "flaky = \<lparr> redux_getState = snapshot (Num 7),
              fromId = (\<lambda>i t. if i = Str ''s1'' then Returns (Some tune) else Returns None),
              add_throws = (\<lambda>before c. playlistUUID c = ''B''),
              getUserPlaylists = None,
              getMyPlaylists = None \<rparr>"

text \<open>The page after the context menu has opened on the song \<open>s1\<close>.\<close>

definition armed :: page where
  "armed = onMediaItem (Iterable (Returns [(Str ''s1'', ''track'')])) init"

text \<open>A host whose song \<open>s1\<close> has a title that fails to resolve.\<close>

definition forgetful :: host where
  "forgetful = flaky \<lparr> fromId := (\<lambda>i t. Returns (Some untitled)) \<rparr>"

text \<open>The page after a click on the armed button and the 100 ms of its timer, and the
  modal that is open then.\<close>

definition modal_open :: page where
  "modal_open = run_until flaky 100 (onClick armed)"

definition tune_modal :: overlay where
  "tune_modal = \<lparr> overlay_song = tune, overlay_songTitle = ''Tune'', overlay_songArtist = ''Ann'',
                   playlist_list = Labels [\<lparr> data_playlist_id = ''p1'', label_title = ''Mix'',
                                             label_tracks = 3 \<rparr>] \<rparr>"

section \<open>Termination of the timer loop\<close>

lemma earliest_None: "earliest q = None \<longleftrightarrow> q = []"
  by (induction q) (simp_all split: option.split)

lemma earliest_mem: "earliest q = Some x \<Longrightarrow> x \<in> set q"
  by (induction q arbitrary: x) (auto split: option.splits if_splits)

lemma earliest_le: "earliest q = Some x \<Longrightarrow> y \<in> set q \<Longrightarrow> fst x \<le> fst y"
proof (induction q arbitrary: x)
  case Nil
  then show ?case by simp
next
  case (Cons a q)
  show ?case
  proof (cases "earliest q")
    case None
    then have "q = []" by (simp add: earliest_None)
    with Cons.prems None show ?thesis by simp
  next
    case (Some z)
    have z: "y \<in> set q \<Longrightarrow> fst z \<le> fst y" using Cons.IH [OF Some] .
    from Cons.prems Some show ?thesis
      using z by (auto split: if_splits)
  qed
qed

lemma queue_weight_append [simp]: "queue_weight (a @ b) = queue_weight a + queue_weight b"
  by (simp add: queue_weight_def)

lemma queue_weight_Cons [simp]: "queue_weight (x # q) = task_weight (snd x) + queue_weight q"
  by (simp add: queue_weight_def)

lemma queue_weight_Nil [simp]: "queue_weight [] = 0"
  by (simp add: queue_weight_def)

lemma queue_weight_remove1:
  "x \<in> set q \<Longrightarrow> queue_weight (remove1 x q) + task_weight (snd x) = queue_weight q"
  by (induction q) auto

lemma timers_showNotification [simp]:
  "timers (showNotification message type w) =
     timers w @ [(clock w + 50, AnimateIn (next_node w)), (clock w + 3000, AutoRemove (next_node w))]"
  by (simp add: showNotification_def)

lemma timers_populatePlaylistList [simp]: "timers (populatePlaylistList h w) = timers w"
  by (simp add: populatePlaylistList_def split: list.split)

lemma timers_showPlaylistSelector:
  "showPlaylistSelector h song w = Returns w' \<Longrightarrow> timers w' = timers w"
  by (auto simp: showPlaylistSelector_def Let_def split: call.splits)

lemma timers_click_timeout:
  "queue_weight (timers (click_timeout h w)) \<le> queue_weight (timers w) + 3"
proof (cases "truthy (contextMenuSongId w)")
  case False
  then show ?thesis by (simp add: click_timeout_def)
next
  case True
  let ?w1 = "w \<lparr> resolved := resolved w @ [(contextMenuSongId w, contextMenuContentType w)] \<rparr>"
  show ?thesis
  proof (cases "fromId h (contextMenuSongId w) (contextMenuContentType w)")
    case Throws
    with True show ?thesis by (simp add: click_timeout_def)
  next
    case (Returns r)
    show ?thesis
    proof (cases r)
      case None
      with True Returns show ?thesis by (simp add: click_timeout_def)
    next
      case (Some mediaItem)
      show ?thesis
      proof (cases "showPlaylistSelector h mediaItem ?w1")
        case Throws
        with True Returns Some show ?thesis by (simp add: click_timeout_def)
      next
        case (Returns w2)
        from timers_showPlaylistSelector [OF this] have "timers w2 = timers w" by simp
        with True \<open>fromId h (contextMenuSongId w) (contextMenuContentType w) = Returns r\<close>
          Some Returns show ?thesis by (simp add: click_timeout_def)
      qed
    qed
  qed
qed

lemma timers_set_transform [simp]: "timers (set_transform n v w) = timers w"
  by (simp add: set_transform_def)

lemma run_task_weight:
  "queue_weight (timers (run_task h task w)) < queue_weight (timers w) + task_weight task"
proof (cases task)
  case ClickTimeout
  with timers_click_timeout [of h w] show ?thesis by simp
qed simp_all

termination run_until
proof (relation "measure (\<lambda>(h, t, w). queue_weight (timers w))")
  show "wf (measure (\<lambda>(h, t, w). queue_weight (timers w)))" by simp
next
  fix h :: host and t :: nat and w :: page and x2 x y
  assume e: "earliest (timers w) = Some x2" and x2: "(x, y) = x2" and "x \<le> t"
  let ?w0 = "w \<lparr> timers := remove1 (x, y) (timers w), clock := max (clock w) x \<rparr>"
  from e x2 have "(x, y) \<in> set (timers w)" by (simp add: earliest_mem)
  from queue_weight_remove1 [OF this]
  have "queue_weight (timers ?w0) + task_weight y = queue_weight (timers w)" by simp
  with run_task_weight [of h y ?w0]
  have "queue_weight (timers (run_task h y ?w0)) < queue_weight (timers w)" by simp
  then show "((h, t, run_task h y ?w0), (h, t, w)) \<in> measure (\<lambda>(h, t, w). queue_weight (timers w))"
    by simp
qed

declare run_until.simps [simp del]

lemma run_until_step:
  "earliest (timers w) = Some (due, task) \<Longrightarrow> due \<le> t \<Longrightarrow>
     run_until h t w =
       run_until h t (run_task h task (w \<lparr> timers := remove1 (due, task) (timers w),
                                             clock := max (clock w) due \<rparr>))"
  by (subst run_until.simps) simp

lemma run_until_stop:
  "earliest (timers w) = Some (due, task) \<Longrightarrow> t < due \<Longrightarrow>
     run_until h t w = w \<lparr> clock := max (clock w) t \<rparr>"
  by (subst run_until.simps) simp

lemma run_until_idle: "timers w = [] \<Longrightarrow> run_until h t w = w \<lparr> clock := max (clock w) t \<rparr>"
  by (subst run_until.simps) simp

section \<open>Properties\<close>

subsection \<open>The ownership filter of the Redux fallback\<close>

lemma isCurrentUserPlaylist_Some:
  "isCurrentUserPlaylist u (Some p) \<longleftrightarrow>
     playlist_type p = ''USER'' \<and> truthy u \<and> playlistCreatorId p = u"
  by (simp add: isCurrentUserPlaylist_def)

lemma playlistsArray_sound:
  "p \<in> set (playlistsArray u es) \<Longrightarrow>
     Some p \<in> set es \<and> playlist_type p = ''USER'' \<and> truthy u \<and> playlistCreatorId p = u"
proof (induction u es rule: playlistsArray.induct)
  case (1 u)
  then show ?case by simp
next
  case (2 u es)
  then show ?case by simp
next
  case (3 u q es)
  show ?case
  proof (cases "isCurrentUserPlaylist u (Some q)")
    case True
    with 3 have "p = q \<or> p \<in> set (playlistsArray u es)" by simp
    then show ?thesis
    proof
      assume "p = q"
      with True show ?thesis by (simp add: isCurrentUserPlaylist_Some)
    next
      assume "p \<in> set (playlistsArray u es)"
      with 3 True show ?thesis by simp
    qed
  next
    case False
    with 3 show ?thesis by simp
  qed
qed

lemma playlistsArray_no_user: "\<not> truthy u \<Longrightarrow> playlistsArray u es = []"
  by (induction u es rule: playlistsArray.induct) (simp_all add: isCurrentUserPlaylist_Some)

lemma surfaced_message [simp]:
  "surfaced (Some no_playlists_found) = []" "surfaced (Some unable_to_load) = []"
  by (simp_all add: no_playlists_found_def unable_to_load_def)

lemma surfaced_populate:
  "surfaced (populatePlaylistListFromRedux state c) = [] \<or>
   surfaced (populatePlaylistListFromRedux state c) =
     map playlist_label (playlistsArray (user_meta_id state) (map snd (content_playlists state)))"
proof -
  let ?arr = "playlistsArray (user_meta_id state) (map snd (content_playlists state))"
  let ?out = "surfaced (populatePlaylistListFromRedux state c)"
  consider (none) "c = None"
    | (empty) h where "c = Some h" "content_playlists state = []"
    | (foreign) h where "c = Some h" "content_playlists state \<noteq> []"
        "?arr = []" "truthy (user_meta_id state)"
    | (rows) h where "c = Some h" "content_playlists state \<noteq> []" "?arr \<noteq> []"
    | (anonymous) h where "c = Some h" "content_playlists state \<noteq> []"
        "\<not> truthy (user_meta_id state)"
    by (cases c) blast+
  then show ?thesis
  proof cases
    case none
    then have "?out = []" by (simp add: populatePlaylistListFromRedux_def)
    then show ?thesis ..
  next
    case empty
    then have "?out = []" by (simp add: populatePlaylistListFromRedux_def)
    then show ?thesis ..
  next
    case foreign
    then have "?out = []" by (simp add: populatePlaylistListFromRedux_def)
    then show ?thesis ..
  next
    case rows
    then have "?out = map playlist_label ?arr"
      by (simp add: populatePlaylistListFromRedux_def Let_def)
    then show ?thesis ..
  next
    case anonymous
    then have "?out = map playlist_label ?arr"
      by (simp add: populatePlaylistListFromRedux_def Let_def)
    then show ?thesis ..
  qed
qed

text \<open>
  C1. Whatever the snapshot and the user identifier, every row that the Redux fallback
  shows renders a playlist of the snapshot whose type is \<open>USER\<close> and whose creator
  identifier is the current user's; and when the current user's identifier is missing
  (falsy), it shows no row at all.
\<close>

theorem redux_fallback_only_own_playlists:
  "(\<exists>ps. surfaced (populatePlaylistListFromRedux state c) = map playlist_label ps \<and>
         (\<forall>p \<in> set ps. Some p \<in> snd ` set (content_playlists state) \<and>
                        playlist_type p = ''USER'' \<and>
                        playlistCreatorId p = user_meta_id state)) \<and>
   (\<not> truthy (user_meta_id state) \<longrightarrow>
      surfaced (populatePlaylistListFromRedux state c) = [])"
proof (intro conjI impI)
  let ?arr = "playlistsArray (user_meta_id state) (map snd (content_playlists state))"
  let ?own = "\<lambda>p. Some p \<in> snd ` set (content_playlists state) \<and>
                 playlist_type p = ''USER'' \<and> playlistCreatorId p = user_meta_id state"
  have arr: "\<forall>p \<in> set ?arr. ?own p"
  proof
    fix p assume "p \<in> set ?arr"
    from playlistsArray_sound [OF this] show "?own p" by simp
  qed
  from surfaced_populate [of state c]
  show "\<exists>ps. surfaced (populatePlaylistListFromRedux state c) = map playlist_label ps \<and>
         (\<forall>p \<in> set ps. ?own p)"
  proof
    assume none: "surfaced (populatePlaylistListFromRedux state c) = []"
    show ?thesis
    proof (rule exI [of _ "[]"])
      from none show "surfaced (populatePlaylistListFromRedux state c) = map playlist_label [] \<and>
         (\<forall>p \<in> set []. ?own p)" by simp
    qed
  next
    assume rows: "surfaced (populatePlaylistListFromRedux state c) = map playlist_label ?arr"
    show ?thesis
    proof (rule exI [of _ ?arr])
      from rows arr show "surfaced (populatePlaylistListFromRedux state c) = map playlist_label ?arr \<and>
         (\<forall>p \<in> set ?arr. ?own p)" by (rule conjI)
    qed
  qed
next
  assume "\<not> truthy (user_meta_id state)"
  then have "playlistsArray (user_meta_id state) (map snd (content_playlists state)) = []"
    by (rule playlistsArray_no_user)
  with surfaced_populate [of state c]
  show "surfaced (populatePlaylistListFromRedux state c) = []" by auto
qed

theorem redux_fallback_only_own_playlists_witness:
  "surfaced (populatePlaylistListFromRedux (snapshot (Num 7)) (Some Initial)) =
     [\<lparr> data_playlist_id = ''p1'', label_title = ''Mix'', label_tracks = 3 \<rparr>] \<and>
   \<not> truthy (user_meta_id (snapshot Undefined)) \<and>
   surfaced (populatePlaylistListFromRedux (snapshot Undefined) (Some Initial)) = []"
proof -
  have rows: "surfaced (populatePlaylistListFromRedux (snapshot (Num 7)) (Some Initial)) =
     [\<lparr> data_playlist_id = ''p1'', label_title = ''Mix'', label_tracks = 3 \<rparr>]"
    by (simp add: populatePlaylistListFromRedux_def snapshot_def isCurrentUserPlaylist_def
        playlistCreatorId_def playlist_label_def my_mix_def their_mix_def editorial_def)
  have anon: "\<not> truthy (user_meta_id (snapshot Undefined))"
    by (simp add: snapshot_def)
  from redux_fallback_only_own_playlists [of "snapshot Undefined" "Some Initial"]
  have "\<not> truthy (user_meta_id (snapshot Undefined)) \<longrightarrow>
      surfaced (populatePlaylistListFromRedux (snapshot Undefined) (Some Initial)) = []"
    by (rule conjunct2)
  with anon have "surfaced (populatePlaylistListFromRedux (snapshot Undefined) (Some Initial)) = []"
    by (rule rev_mp)
  with rows anon show ?thesis by (intro conjI)
qed

text \<open>
  C10. In the Redux fallback, when the list element exists, the snapshot is not empty,
  the current user's identifier is known (truthy) and the filter keeps no playlist, the
  element shows the error paragraph "Unable to load your playlists. Please try again.",
  which is not the "No playlists found" paragraph of the empty snapshot.
\<close>

theorem redux_fallback_foreign_snapshot_error:
  assumes "content_playlists state \<noteq> []"
    and "truthy (user_meta_id state)"
    and "playlistsArray (user_meta_id state) (map snd (content_playlists state)) = []"
  shows "populatePlaylistListFromRedux state (Some old) =
           Some (Para ''color: #ff6b6b;'' ''Unable to load your playlists. Please try again.'') \<and>
         populatePlaylistListFromRedux state (Some old) \<noteq> Some no_playlists_found"
proof -
  from assms have "populatePlaylistListFromRedux state (Some old) = Some unable_to_load"
    by (simp add: populatePlaylistListFromRedux_def)
  moreover have "unable_to_load \<noteq> no_playlists_found"
    by (simp add: unable_to_load_def no_playlists_found_def)
  ultimately show ?thesis by (simp add: unable_to_load_def)
qed

theorem redux_fallback_foreign_snapshot_error_witness:
  "content_playlists (snapshot (Num 9)) \<noteq> [] \<and>
   truthy (user_meta_id (snapshot (Num 9))) \<and>
   playlistsArray (user_meta_id (snapshot (Num 9))) (map snd (content_playlists (snapshot (Num 9)))) = [] \<and>
   populatePlaylistListFromRedux (snapshot (Num 9)) (Some Initial) =
     Some (Para ''color: #ff6b6b;'' ''Unable to load your playlists. Please try again.'')"
proof -
  have a: "content_playlists (snapshot (Num 9)) \<noteq> []"
    by (simp add: snapshot_def)
  have b: "truthy (user_meta_id (snapshot (Num 9)))"
    by (simp add: snapshot_def)
  have c: "playlistsArray (user_meta_id (snapshot (Num 9)))
             (map snd (content_playlists (snapshot (Num 9)))) = []"
    by (simp add: snapshot_def isCurrentUserPlaylist_def playlistCreatorId_def
        my_mix_def their_mix_def editorial_def)
  from redux_fallback_foreign_snapshot_error [OF a b c, of Initial]
  have "populatePlaylistListFromRedux (snapshot (Num 9)) (Some Initial) =
     Some (Para ''color: #ff6b6b;'' ''Unable to load your playlists. Please try again.'')"
    by (rule conjunct1)
  with a b c show ?thesis by (intro conjI)
qed

subsection \<open>The bulk add\<close>

lemma shown_showNotification [simp]:
  "shown (showNotification message type w) = shown w @ [(message, type)]"
  by (simp add: showNotification_def)

lemma dispatched_showNotification [simp]:
  "dispatched (showNotification message type w) = dispatched w"
  by (simp add: showNotification_def)

lemma resolved_showNotification [simp]:
  "resolved (showNotification message type w) = resolved w"
  by (simp add: showNotification_def)

lemma overlays_showNotification [simp]:
  "overlays (showNotification message type w) = overlays w"
  by (simp add: showNotification_def)

text \<open>
  C2. Whatever the song, the bulk add with no playlist selected does nothing but show
  the notice "Please select at least one playlist" as an error: one new notification, no
  add command dispatched.
\<close>

theorem empty_selection_rejected:
  "addToSelectedPlaylists h song [] w =
     showNotification ''Please select at least one playlist'' Error w \<and>
   dispatched (addToSelectedPlaylists h song [] w) = dispatched w \<and>
   shown (addToSelectedPlaylists h song [] w) =
     shown w @ [(''Please select at least one playlist'', Error)]"
proof -
  have "addToSelectedPlaylists h song [] w =
     showNotification ''Please select at least one playlist'' Error w"
    by (simp add: addToSelectedPlaylists_def)
  then show ?thesis by simp
qed

lemma upt_0_Suc: "[0..<Suc n] = 0 # map Suc [0..<n]"
  by (simp only: upt_conv_Cons [OF zero_less_Suc] map_Suc_upt)

lemma length_filter_upt_Suc:
  "length (filter P [0..<Suc n]) =
     (if P 0 then 1 else 0) + length (filter (\<lambda>i. P (Suc i)) [0..<n])"
  by (simp only: upt_0_Suc filter.simps filter_map o_def length_map list.size split: if_split)
     simp

lemma attempt_fails_0 [simp]: "attempt_fails h before (c # cs) 0 = add_throws h before c"
  by (simp add: attempt_fails_def)

lemma attempt_fails_Suc [simp]:
  "attempt_fails h before (c # cs) (Suc i) = attempt_fails h (before @ [c]) cs i"
  by (simp add: attempt_fails_def)

text \<open>What the loop computes, whatever the counters and the page it starts from.\<close>

lemma add_each_result:
  "add_each h song sel (s, e, w) =
     (s + length (succeeded_attempts h song sel w),
      e + length (failed_attempts h song sel w),
      w \<lparr> dispatched := dispatched w @ map (add_media_item song) sel \<rparr>)"
proof (induction sel arbitrary: s e w)
  case Nil
  show ?case by (simp add: succeeded_attempts_def failed_attempts_def)
next
  case (Cons p rest)
  let ?c = "add_media_item song p"
  let ?w' = "w \<lparr> dispatched := dispatched w @ [?c] \<rparr>"
  have rest_s: "length (succeeded_attempts h song (p # rest) w) =
      (if add_throws h (dispatched w) ?c then 0 else 1) + length (succeeded_attempts h song rest ?w')"
    by (simp add: succeeded_attempts_def length_filter_upt_Suc del: upt_Suc)
  have rest_e: "length (failed_attempts h song (p # rest) w) =
      (if add_throws h (dispatched w) ?c then 1 else 0) + length (failed_attempts h song rest ?w')"
    by (simp add: failed_attempts_def length_filter_upt_Suc del: upt_Suc)
  show ?case
  proof (cases "add_throws h (dispatched w) ?c")
    case True
    with Cons.IH [of s "Suc e" ?w'] show ?thesis
      by (simp add: rest_s rest_e Let_def)
  next
    case False
    with Cons.IH [of "Suc s" e ?w'] show ?thesis
      by (simp add: rest_s rest_e Let_def)
  qed
qed

lemma tally_result:
  "tally h song sel w =
     (length (succeeded_attempts h song sel w), length (failed_attempts h song sel w))"
  by (simp add: tally_def add_each_result)

text \<open>The bulk add on a non-empty selection, once the title has been resolved.\<close>

lemma addToSelectedPlaylists_result:
  assumes "songTitle song = Returns t" and "sel \<noteq> []"
  shows "addToSelectedPlaylists h song sel w =
     (let w' = w \<lparr> dispatched := dispatched w @ map (add_media_item song) sel \<rparr>
      in if failed_attempts h song sel w = [] then w'
         else showNotification
                (result_message t (length (succeeded_attempts h song sel w))
                   (length (failed_attempts h song sel w))) Error w')"
  using assms by (simp add: addToSelectedPlaylists_def add_each_result Let_def)

lemma show_nat_2: "show_nat 2 = ''2''"
  by code_simp

lemma show_nat_1: "show_nat 1 = ''1''"
  by code_simp

lemma result_message_2_1:
  "result_message t 2 1 = dq @ t @ dq @ '' added to 2 playlists (1 failed)''"
  by (simp only: result_message_def show_nat_2 show_nat_1) simp

subsection \<open>The songs that the bulk add is called for\<close>

lemma overlays_addToSelectedPlaylists [simp]:
  "overlays (addToSelectedPlaylists h song sel w) = overlays w"
proof (cases "sel = []")
  case True
  then show ?thesis by (simp add: addToSelectedPlaylists_def)
next
  case False
  show ?thesis
  proof (cases "songTitle song")
    case Throws
    with False show ?thesis by (simp add: addToSelectedPlaylists_def)
  next
    case (Returns t)
    from addToSelectedPlaylists_result [OF this False] show ?thesis by (simp add: Let_def)
  qed
qed

lemma modal_titles_ok_remove_overlay: "modal_titles_ok w \<Longrightarrow> modal_titles_ok (remove_overlay i w)"
proof -
  assume "modal_titles_ok w"
  moreover have "set (take i (overlays w) @ drop (Suc i) (overlays w)) \<subseteq> set (overlays w)"
    using set_take_subset [of i "overlays w"] set_drop_subset [of "Suc i" "overlays w"] by simp
  ultimately show ?thesis
    by (auto simp: modal_titles_ok_def remove_overlay_def list_all_iff)
qed

lemma modal_titles_ok_populatePlaylistList:
  "modal_titles_ok (populatePlaylistList h w) = modal_titles_ok w"
  by (cases "overlays w") (simp_all add: populatePlaylistList_def modal_titles_ok_def)

lemma modal_titles_ok_showPlaylistSelector:
  assumes "showPlaylistSelector h song w = Returns w'" and "modal_titles_ok w"
  shows "modal_titles_ok w'"
proof (cases "songTitle song")
  case Throws
  with assms(1) show ?thesis by (simp add: showPlaylistSelector_def)
next
  case (Returns t)
  let ?ov = "\<lparr> overlay_song = song, overlay_songTitle = t,
                overlay_songArtist = songArtist song, playlist_list = Initial \<rparr>"
  from Returns assms(1)
  have "w' = populatePlaylistList h (w \<lparr> overlays := overlays w @ [?ov] \<rparr>)"
    by (simp add: showPlaylistSelector_def)
  moreover from Returns assms(2) have "modal_titles_ok (w \<lparr> overlays := overlays w @ [?ov] \<rparr>)"
    by (simp add: modal_titles_ok_def)
  ultimately show ?thesis by (simp add: modal_titles_ok_populatePlaylistList)
qed

lemma modal_titles_ok_click_timeout:
  assumes "modal_titles_ok w"
  shows "modal_titles_ok (click_timeout h w)"
proof (cases "truthy (contextMenuSongId w)")
  case False
  with assms show ?thesis by (simp add: click_timeout_def modal_titles_ok_def)
next
  case True
  let ?w1 = "w \<lparr> resolved := resolved w @ [(contextMenuSongId w, contextMenuContentType w)] \<rparr>"
  from assms have w1: "modal_titles_ok ?w1" by (simp add: modal_titles_ok_def)
  show ?thesis
  proof (cases "fromId h (contextMenuSongId w) (contextMenuContentType w)")
    case Throws
    with True w1 show ?thesis by (simp add: click_timeout_def modal_titles_ok_def)
  next
    case r: (Returns r)
    show ?thesis
    proof (cases r)
      case None
      with True r w1 show ?thesis by (simp add: click_timeout_def modal_titles_ok_def)
    next
      case (Some mediaItem)
      show ?thesis
      proof (cases "showPlaylistSelector h mediaItem ?w1")
        case Throws
        with True r Some w1 show ?thesis by (simp add: click_timeout_def modal_titles_ok_def)
      next
        case (Returns w2)
        from modal_titles_ok_showPlaylistSelector [OF this w1] have "modal_titles_ok w2" .
        with True r Some Returns show ?thesis by (simp add: click_timeout_def)
      qed
    qed
  qed
qed

lemma modal_titles_ok_run_task: "modal_titles_ok w \<Longrightarrow> modal_titles_ok (run_task h task w)"
proof (cases task)
  case ClickTimeout
  assume "modal_titles_ok w"
  with ClickTimeout show ?thesis by (simp add: modal_titles_ok_click_timeout)
qed (simp_all add: modal_titles_ok_def set_transform_def)

lemma modal_titles_ok_run_until: "modal_titles_ok w \<Longrightarrow> modal_titles_ok (run_until h t w)"
proof (induction h t w rule: run_until.induct)
  case (1 h t w)
  show ?case
  proof (cases "earliest (timers w)")
    case None
    then have "timers w = []" by (simp add: earliest_None)
    with "1.prems" show ?thesis by (simp add: run_until_idle modal_titles_ok_def)
  next
    case (Some x)
    obtain due task where x: "x = (due, task)" by (cases x)
    from Some x have e: "earliest (timers w) = Some (due, task)" by simp
    show ?thesis
    proof (cases "due \<le> t")
      case True
      let ?w0 = "w \<lparr> timers := remove1 (due, task) (timers w), clock := max (clock w) due \<rparr>"
      from "1.prems" have "modal_titles_ok ?w0" by (simp add: modal_titles_ok_def)
      then have "modal_titles_ok (run_task h task ?w0)" by (rule modal_titles_ok_run_task)
      with Some x True have "modal_titles_ok (run_until h t (run_task h task ?w0))"
        by (intro "1.IH") simp_all
      with run_until_step [OF e True, of h] show ?thesis by simp
    next
      case False
      with "1.prems" run_until_stop [OF e, of t h] show ?thesis
        by (simp add: modal_titles_ok_def)
    qed
  qed
qed

lemma reachable_modal_titles_ok: "reachable h w \<Longrightarrow> modal_titles_ok w"
proof (induction rule: reachable.induct)
  case start
  show ?case by (simp add: modal_titles_ok_def init_def)
next
  case (menu_opened w mediaCollection)
  have "overlays (capture_first items w) = overlays w" for items
    by (cases "(items, w)" rule: capture_first.cases) simp_all
  then have "overlays (onMediaItem mediaCollection w) = overlays w"
    by (cases mediaCollection) (simp_all add: onMediaItem_def)
  with menu_opened.IH show ?case by (simp add: modal_titles_ok_def)
next
  case (button_clicked w)
  then show ?case by (simp add: modal_titles_ok_def onClick_def)
next
  case (time_passed w t)
  from time_passed.IH show ?case by (rule modal_titles_ok_run_until)
next
  case (add_clicked w i selectedPlaylistIds)
  let ?w' = "addToSelectedPlaylists h (overlay_song (overlays w ! i)) selectedPlaylistIds w"
  from add_clicked.IH have "modal_titles_ok ?w'" by (simp add: modal_titles_ok_def)
  then have "modal_titles_ok (remove_overlay i ?w')" by (rule modal_titles_ok_remove_overlay)
  with add_clicked.IH show ?case by (simp add: add_click_def)
next
  case (cancel_clicked w i)
  then show ?case by (simp add: cancel_click_def modal_titles_ok_remove_overlay)
qed

text \<open>
  The bulk add is called from the Add button of a modal only, and a modal is open only
  for a song whose title resolved: at line 279 the title is the one that the modal shows.
\<close>

lemma modal_song_title:
  "reachable h w \<Longrightarrow> ov \<in> set (overlays w) \<Longrightarrow>
     songTitle (overlay_song ov) = Returns (overlay_songTitle ov)"
  using reachable_modal_titles_ok [of h w] by (simp add: modal_titles_ok_def list_all_iff)

lemma dispatched_add_click:
  "i < length (overlays w) \<Longrightarrow>
     dispatched (add_click h i sel w) =
       dispatched (addToSelectedPlaylists h (overlay_song (overlays w ! i)) sel w)"
  by (simp add: add_click_def remove_overlay_def)

lemma attempts_total:
  "length (succeeded_attempts h song sel w) + length (failed_attempts h song sel w) = length sel"
proof -
  have "length (succeeded_attempts h song sel w) + length (failed_attempts h song sel w) =
      length [0..<length sel]"
    unfolding succeeded_attempts_def failed_attempts_def
    by (simp only: add.commute [of "length (filter (\<lambda>i. \<not> _ i) _)"] sum_length_filter_compl)
  then show ?thesis by simp
qed

lemma reachable_modal_open: "reachable flaky modal_open"
  unfolding modal_open_def armed_def by (intro reachable.intros)

lemma overlays_modal_open: "overlays modal_open = [tune_modal]"
  by code_simp

text \<open>
  C8. Whenever the bulk add runs (for the song of an open modal, on a page that the
  plugin can be in), it dispatches, after what was dispatched before, exactly one add
  command for every selected playlist identifier, in the order of the selection: that
  playlist, the one song, \<open>addToIndex\<close> -1, \<open>onDupes\<close> SKIP, host notification off.
\<close>

theorem one_add_command_per_selected_playlist:
  assumes "reachable h w" and "ov \<in> set (overlays w)"
  shows "dispatched (addToSelectedPlaylists h (overlay_song ov) selectedPlaylistIds w) =
           dispatched w @
           map (\<lambda>playlistId. \<lparr> playlistUUID = playlistId,
                                mediaItemIdsToAdd = [song_id (overlay_song ov)],
                                addToIndex = - 1, onDupes = ''SKIP'',
                                showNotificationFlag = False \<rparr>) selectedPlaylistIds"
proof (cases "selectedPlaylistIds = []")
  case True
  then show ?thesis by (simp add: addToSelectedPlaylists_def)
next
  case False
  from assms have t: "songTitle (overlay_song ov) = Returns (overlay_songTitle ov)"
    by (rule modal_song_title)
  have "add_media_item (overlay_song ov) =
      (\<lambda>playlistId. \<lparr> playlistUUID = playlistId, mediaItemIdsToAdd = [song_id (overlay_song ov)],
                        addToIndex = - 1, onDupes = ''SKIP'', showNotificationFlag = False \<rparr>)"
    by (rule ext) (simp add: add_media_item_def)
  moreover have "dispatched (addToSelectedPlaylists h (overlay_song ov) selectedPlaylistIds w) =
      dispatched w @ map (add_media_item (overlay_song ov)) selectedPlaylistIds"
    by (simp add: addToSelectedPlaylists_result [OF t False] Let_def)
  ultimately show ?thesis by simp
qed

theorem one_add_command_per_selected_playlist_witness:
  "reachable flaky modal_open \<and> tune_modal \<in> set (overlays modal_open) \<and>
   dispatched (addToSelectedPlaylists flaky (overlay_song tune_modal) [''A'', ''B''] modal_open) =
     [\<lparr> playlistUUID = ''A'', mediaItemIdsToAdd = [Str ''s1''], addToIndex = - 1,
        onDupes = ''SKIP'', showNotificationFlag = False \<rparr>,
      \<lparr> playlistUUID = ''B'', mediaItemIdsToAdd = [Str ''s1''], addToIndex = - 1,
        onDupes = ''SKIP'', showNotificationFlag = False \<rparr>]"
proof -
  have mem: "tune_modal \<in> set (overlays modal_open)"
    by (simp add: overlays_modal_open)
  have "dispatched modal_open = []"
    by code_simp
  moreover have "song_id (overlay_song tune_modal) = Str ''s1''"
    by (simp add: tune_modal_def tune_def)
  ultimately show ?thesis
    using one_add_command_per_selected_playlist [OF reachable_modal_open mem, of "[''A'', ''B'']"]
      reachable_modal_open mem
    by simp
qed

text \<open>
  C3. Whenever the bulk add runs on a non-empty selection (for the song of an open
  modal, on a page that the plugin can be in), it dispatches one command per selected
  playlist in the order of the selection, whether or not earlier ones threw; the
  counters end at the number of commands that did not throw and the number that threw;
  and exactly one error notification, built from both counters, is shown when a command
  threw. In particular, for the selection A, B, C where only the command for B throws:
  the counters end at 2 and 1, the commands for A, B and C were dispatched in this
  order, and the one notification reads: "title" added to 2 playlists (1 failed).
\<close>

theorem bulk_add_tolerates_failures:
  assumes "reachable h w" and "ov \<in> set (overlays w)" and "selectedPlaylistIds \<noteq> []"
  shows "dispatched (addToSelectedPlaylists h (overlay_song ov) selectedPlaylistIds w) =
           dispatched w @ map (add_media_item (overlay_song ov)) selectedPlaylistIds \<and>
         tally h (overlay_song ov) selectedPlaylistIds w =
           (length (succeeded_attempts h (overlay_song ov) selectedPlaylistIds w),
            length (failed_attempts h (overlay_song ov) selectedPlaylistIds w)) \<and>
         length (succeeded_attempts h (overlay_song ov) selectedPlaylistIds w) +
           length (failed_attempts h (overlay_song ov) selectedPlaylistIds w) =
           length selectedPlaylistIds \<and>
         shown (addToSelectedPlaylists h (overlay_song ov) selectedPlaylistIds w) =
           shown w @
           (if failed_attempts h (overlay_song ov) selectedPlaylistIds w = [] then []
            else [(result_message (overlay_songTitle ov)
                     (length (succeeded_attempts h (overlay_song ov) selectedPlaylistIds w))
                     (length (failed_attempts h (overlay_song ov) selectedPlaylistIds w)), Error)]) \<and>
         (selectedPlaylistIds = [A, B, C] \<and>
          failed_attempts h (overlay_song ov) selectedPlaylistIds w = [1] \<longrightarrow>
            tally h (overlay_song ov) selectedPlaylistIds w = (2, 1) \<and>
            dispatched (addToSelectedPlaylists h (overlay_song ov) selectedPlaylistIds w) =
              dispatched w @ [add_media_item (overlay_song ov) A, add_media_item (overlay_song ov) B,
                              add_media_item (overlay_song ov) C] \<and>
            shown (addToSelectedPlaylists h (overlay_song ov) selectedPlaylistIds w) =
              shown w @ [(dq @ overlay_songTitle ov @ dq @ '' added to 2 playlists (1 failed)'',
                          Error)])"
proof -
  let ?song = "overlay_song ov"
  let ?sel = "selectedPlaylistIds"
  let ?after = "addToSelectedPlaylists h ?song ?sel w"
  from assms(1,2) have t: "songTitle ?song = Returns (overlay_songTitle ov)"
    by (rule modal_song_title)
  have d: "dispatched ?after = dispatched w @ map (add_media_item ?song) ?sel"
    by (simp add: addToSelectedPlaylists_result [OF t assms(3)] Let_def)
  have c: "tally h ?song ?sel w =
      (length (succeeded_attempts h ?song ?sel w), length (failed_attempts h ?song ?sel w))"
    by (rule tally_result)
  have n: "length (succeeded_attempts h ?song ?sel w) + length (failed_attempts h ?song ?sel w) =
      length ?sel"
    by (rule attempts_total)
  have s: "shown ?after =
      shown w @
      (if failed_attempts h ?song ?sel w = [] then []
       else [(result_message (overlay_songTitle ov) (length (succeeded_attempts h ?song ?sel w))
                (length (failed_attempts h ?song ?sel w)), Error)])"
    by (simp add: addToSelectedPlaylists_result [OF t assms(3)] Let_def)
  have abc: "tally h ?song ?sel w = (2, 1) \<and>
      dispatched ?after =
        dispatched w @ [add_media_item ?song A, add_media_item ?song B, add_media_item ?song C] \<and>
      shown ?after =
        shown w @ [(dq @ overlay_songTitle ov @ dq @ '' added to 2 playlists (1 failed)'', Error)]"
    if sel: "?sel = [A, B, C]" and f: "failed_attempts h ?song ?sel w = [1]"
  proof -
    from f have lf: "length (failed_attempts h ?song ?sel w) = 1" by simp
    with n sel have ls: "length (succeeded_attempts h ?song ?sel w) = 2" by simp
    from c have "tally h ?song ?sel w = (2, 1)" by (simp only: ls lf)
    moreover from d sel have "dispatched ?after =
        dispatched w @ [add_media_item ?song A, add_media_item ?song B, add_media_item ?song C]"
      by simp
    moreover from f have "failed_attempts h ?song ?sel w \<noteq> []" by simp
    with s have "shown ?after = shown w @
        [(result_message (overlay_songTitle ov) (length (succeeded_attempts h ?song ?sel w))
            (length (failed_attempts h ?song ?sel w)), Error)]"
      by (simp only: if_False)
    then have "shown ?after =
        shown w @ [(dq @ overlay_songTitle ov @ dq @ '' added to 2 playlists (1 failed)'', Error)]"
      by (simp only: ls lf result_message_2_1)
    ultimately show ?thesis by (intro conjI)
  qed
  have "?sel = [A, B, C] \<and> failed_attempts h ?song ?sel w = [1] \<longrightarrow>
      tally h ?song ?sel w = (2, 1) \<and>
      dispatched ?after =
        dispatched w @ [add_media_item ?song A, add_media_item ?song B, add_media_item ?song C] \<and>
      shown ?after =
        shown w @ [(dq @ overlay_songTitle ov @ dq @ '' added to 2 playlists (1 failed)'', Error)]"
  proof
    assume a: "?sel = [A, B, C] \<and> failed_attempts h ?song ?sel w = [1]"
    from a have "?sel = [A, B, C]" by (rule conjunct1)
    moreover from a have "failed_attempts h ?song ?sel w = [1]" by (rule conjunct2)
    ultimately show "tally h ?song ?sel w = (2, 1) \<and>
      dispatched ?after =
        dispatched w @ [add_media_item ?song A, add_media_item ?song B, add_media_item ?song C] \<and>
      shown ?after =
        shown w @ [(dq @ overlay_songTitle ov @ dq @ '' added to 2 playlists (1 failed)'', Error)]"
      by (rule abc)
  qed
  then show ?thesis
    by (rule conjI [OF d conjI [OF c conjI [OF n conjI [OF s]]]])
qed

theorem bulk_add_tolerates_failures_witness:
  "reachable flaky modal_open \<and> tune_modal \<in> set (overlays modal_open) \<and>
   [''A'', ''B'', ''C''] \<noteq> [] \<and>
   failed_attempts flaky (overlay_song tune_modal) [''A'', ''B'', ''C''] modal_open = [1] \<and>
   map playlistUUID
     (dispatched (addToSelectedPlaylists flaky (overlay_song tune_modal) [''A'', ''B'', ''C'']
        modal_open)) = [''A'', ''B'', ''C''] \<and>
   tally flaky (overlay_song tune_modal) [''A'', ''B'', ''C''] modal_open = (2, 1) \<and>
   shown (addToSelectedPlaylists flaky (overlay_song tune_modal) [''A'', ''B'', ''C''] modal_open) =
     [([CHR 0x22] @ ''Tune'' @ [CHR 0x22] @ '' added to 2 playlists (1 failed)'', Error)]"
proof -
  have mem: "tune_modal \<in> set (overlays modal_open)"
    by (simp add: overlays_modal_open)
  have ne: "[''A'', ''B'', ''C''] \<noteq> ([] :: string list)"
    by simp
  have f: "failed_attempts flaky (overlay_song tune_modal) [''A'', ''B'', ''C''] modal_open = [1]"
    by code_simp
  have i: "dispatched modal_open = []" "shown modal_open = []"
    by code_simp+
  have o: "overlay_songTitle tune_modal = ''Tune''"
    by (simp add: tune_modal_def)
  from bulk_add_tolerates_failures [OF reachable_modal_open mem ne, of "''A''" "''B''" "''C''"]
  have "tally flaky (overlay_song tune_modal) [''A'', ''B'', ''C''] modal_open = (2, 1) \<and>
      dispatched (addToSelectedPlaylists flaky (overlay_song tune_modal) [''A'', ''B'', ''C'']
        modal_open) =
        dispatched modal_open @
        [add_media_item (overlay_song tune_modal) ''A'', add_media_item (overlay_song tune_modal) ''B'',
         add_media_item (overlay_song tune_modal) ''C''] \<and>
      shown (addToSelectedPlaylists flaky (overlay_song tune_modal) [''A'', ''B'', ''C''] modal_open) =
        shown modal_open @
        [(dq @ overlay_songTitle tune_modal @ dq @ '' added to 2 playlists (1 failed)'', Error)]"
    using f by blast
  with reachable_modal_open mem ne f i o show ?thesis
    by (simp add: add_media_item_def dq_def)
qed

text \<open>
  C4. Whenever the bulk add runs on a non-empty selection (for the song of an open
  modal, on a page that the plugin can be in) and no command throws, it counts every
  command as a success and shows no notification: no call of \<open>showNotification\<close>, no
  new toast.
\<close>

theorem success_is_silent:
  assumes "reachable h w" and "ov \<in> set (overlays w)" and "selectedPlaylistIds \<noteq> []"
    and "failed_attempts h (overlay_song ov) selectedPlaylistIds w = []"
  shows "tally h (overlay_song ov) selectedPlaylistIds w = (length selectedPlaylistIds, 0) \<and>
         shown (addToSelectedPlaylists h (overlay_song ov) selectedPlaylistIds w) = shown w \<and>
         toasts (addToSelectedPlaylists h (overlay_song ov) selectedPlaylistIds w) = toasts w"
proof -
  from assms(1,2) have t: "songTitle (overlay_song ov) = Returns (overlay_songTitle ov)"
    by (rule modal_song_title)
  from attempts_total [of h "overlay_song ov" selectedPlaylistIds w] assms(4)
  have "length (succeeded_attempts h (overlay_song ov) selectedPlaylistIds w) =
      length selectedPlaylistIds"
    by simp
  with assms(4) show ?thesis
    by (simp add: addToSelectedPlaylists_result [OF t assms(3)] tally_result Let_def)
qed

theorem success_is_silent_witness:
  "reachable flaky modal_open \<and> tune_modal \<in> set (overlays modal_open) \<and>
   [''A'', ''C''] \<noteq> [] \<and>
   failed_attempts flaky (overlay_song tune_modal) [''A'', ''C''] modal_open = [] \<and>
   tally flaky (overlay_song tune_modal) [''A'', ''C''] modal_open = (2, 0) \<and>
   shown (addToSelectedPlaylists flaky (overlay_song tune_modal) [''A'', ''C''] modal_open) = [] \<and>
   toasts (addToSelectedPlaylists flaky (overlay_song tune_modal) [''A'', ''C''] modal_open) = []"
proof -
  have mem: "tune_modal \<in> set (overlays modal_open)"
    by (simp add: overlays_modal_open)
  have ne: "[''A'', ''C''] \<noteq> ([] :: string list)"
    by simp
  have f: "failed_attempts flaky (overlay_song tune_modal) [''A'', ''C''] modal_open = []"
    by code_simp
  have i: "shown modal_open = []" "toasts modal_open = []"
    by code_simp+
  from success_is_silent [OF reachable_modal_open mem ne f] reachable_modal_open mem f i
  show ?thesis by simp
qed

subsection \<open>The context-menu button\<close>

lemma onMediaItem_first_item:
  "captured (onMediaItem (Iterable (Returns ((i, t) # rest))) w) = (i, t)"
  "captured (onMediaItem (WithMediaItems (Returns ((i, t) # rest))) w) = (i, t)"
  by (simp_all add: onMediaItem_def captured_def)

lemma onMediaItem_throws:
  "contextMenuSongId (onMediaItem (Iterable Throws) w) = Null"
  "contextMenuSongId (onMediaItem (WithMediaItems Throws) w) = Null"
  by (simp_all add: onMediaItem_def)

lemma captured_showNotification [simp]:
  "captured (showNotification message type w) = captured w"
  by (simp add: captured_def showNotification_def)

lemma captured_showPlaylistSelector:
  "showPlaylistSelector h song w = Returns w' \<Longrightarrow> captured w' = captured w"
  by (auto simp: showPlaylistSelector_def populatePlaylistList_def captured_def Let_def
      split: call.splits list.splits)

lemma captured_click_timeout [simp]: "captured (click_timeout h w) = captured w"
proof (cases "truthy (contextMenuSongId w)")
  case False
  then show ?thesis by (simp add: click_timeout_def)
next
  case True
  let ?w1 = "w \<lparr> resolved := resolved w @ [(contextMenuSongId w, contextMenuContentType w)] \<rparr>"
  have w1: "captured ?w1 = captured w" by (simp add: captured_def)
  show ?thesis
  proof (cases "fromId h (contextMenuSongId w) (contextMenuContentType w)")
    case Throws
    with True w1 show ?thesis by (simp add: click_timeout_def)
  next
    case r: (Returns r)
    show ?thesis
    proof (cases r)
      case None
      with True r w1 show ?thesis by (simp add: click_timeout_def)
    next
      case (Some mediaItem)
      show ?thesis
      proof (cases "showPlaylistSelector h mediaItem ?w1")
        case Throws
        with True r Some w1 show ?thesis by (simp add: click_timeout_def)
      next
        case (Returns w2)
        from captured_showPlaylistSelector [OF this] w1 have "captured w2 = captured w" by simp
        with True r Some Returns show ?thesis by (simp add: click_timeout_def)
      qed
    qed
  qed
qed

lemma captured_run_task: "captured (run_task h task w) = captured w"
proof (cases task)
  case ClickTimeout
  then show ?thesis by simp
qed (simp_all add: captured_def set_transform_def)

lemma captured_run_until: "captured (run_until h t w) = captured w"
proof (induction h t w rule: run_until.induct)
  case (1 h t w)
  show ?case
  proof (cases "earliest (timers w)")
    case None
    then show ?thesis by (subst run_until.simps) (simp add: captured_def)
  next
    case (Some x)
    obtain due task where x: "x = (due, task)" by (cases x)
    show ?thesis
    proof (cases "due \<le> t")
      case True
      let ?w0 = "w \<lparr> timers := remove1 (due, task) (timers w), clock := max (clock w) due \<rparr>"
      from Some x True have "run_until h t w = run_until h t (run_task h task ?w0)"
        by (simp add: run_until_step)
      moreover from Some x True have "captured (run_until h t (run_task h task ?w0)) =
          captured (run_task h task ?w0)"
        by (intro "1.IH") simp_all
      moreover have "captured (run_task h task ?w0) = captured w"
        by (simp add: captured_run_task) (simp add: captured_def)
      ultimately show ?thesis by simp
    next
      case False
      with Some x show ?thesis by (simp add: run_until_stop captured_def)
    qed
  qed
qed

text \<open>
  C7. When no song identity has been captured (\<open>contextMenuSongId\<close> is \<open>null\<close>, or any
  falsy value), the deferred body of the click handler shows exactly one notification,
  "No song selected" as an error, and does not call \<open>MediaItem.fromId\<close>; and on a page
  with no other callback pending, that is all a click on the button and the 100 ms of
  its timer do: one notification, no resolution call, no modal.
\<close>

theorem click_without_captured_song:
  assumes "\<not> truthy (contextMenuSongId w)"
  shows "shown (click_timeout h w) = shown w @ [(''No song selected'', Error)] \<and>
         resolved (click_timeout h w) = resolved w \<and>
         (timers w = [] \<longrightarrow>
            shown (run_until h (clock w + 100) (onClick w)) =
              shown w @ [(''No song selected'', Error)] \<and>
            resolved (run_until h (clock w + 100) (onClick w)) = resolved w \<and>
            overlays (run_until h (clock w + 100) (onClick w)) = overlays w)"
proof (intro conjI impI)
  from assms show "shown (click_timeout h w) = shown w @ [(''No song selected'', Error)]"
    by (simp add: click_timeout_def)
  from assms show "resolved (click_timeout h w) = resolved w"
    by (simp add: click_timeout_def)
next
  assume idle: "timers w = []"
  let ?t = "clock w + 100"
  let ?w0 = "(onClick w) \<lparr> timers := remove1 (?t, ClickTimeout) (timers (onClick w)),
                            clock := max (clock (onClick w)) ?t \<rparr>"
  let ?w1 = "showNotification ''No song selected'' Error ?w0"
  have "earliest (timers (onClick w)) = Some (?t, ClickTimeout)"
    using idle by (simp add: onClick_def)
  then have "run_until h ?t (onClick w) = run_until h ?t (run_task h ClickTimeout ?w0)"
    by (rule run_until_step) simp
  moreover have "run_task h ClickTimeout ?w0 = ?w1"
    using assms by (simp add: click_timeout_def onClick_def)
  moreover have "earliest (timers ?w1) = Some (?t + 50, AnimateIn (next_node ?w0))"
    using idle by (simp add: onClick_def)
  then have "run_until h ?t ?w1 = ?w1 \<lparr> clock := max (clock ?w1) ?t \<rparr>"
    by (rule run_until_stop) simp
  ultimately have run: "run_until h ?t (onClick w) = ?w1 \<lparr> clock := max (clock ?w1) ?t \<rparr>"
    by simp
  show "shown (run_until h ?t (onClick w)) = shown w @ [(''No song selected'', Error)]"
    unfolding run by (simp add: onClick_def)
  show "resolved (run_until h ?t (onClick w)) = resolved w"
    unfolding run by (simp add: onClick_def)
  show "overlays (run_until h ?t (onClick w)) = overlays w"
    unfolding run by (simp add: onClick_def)
qed

theorem click_without_captured_song_witness:
  "\<not> truthy (contextMenuSongId init) \<and> timers init = [] \<and>
   shown (click_timeout flaky init) = [(''No song selected'', Error)] \<and>
   shown (run_until flaky 100 (onClick init)) = [(''No song selected'', Error)] \<and>
   resolved (run_until flaky 100 (onClick init)) = []"
proof -
  have a: "\<not> truthy (contextMenuSongId init)" and b: "timers init = []"
    by (simp_all add: init_def)
  have "clock init = 0" "shown init = []" "resolved init = []"
    by (simp_all add: init_def)
  with click_without_captured_song [OF a, of flaky] a b show ?thesis by simp
qed

lemma resolved_showPlaylistSelector:
  "showPlaylistSelector h song w = Returns w' \<Longrightarrow> resolved w' = resolved w"
  by (auto simp: showPlaylistSelector_def populatePlaylistList_def Let_def
      split: call.splits list.splits)

lemma resolved_click_timeout:
  assumes "truthy (contextMenuSongId w)"
  shows "resolved (click_timeout h w) = resolved w @ [captured w]"
proof -
  let ?w1 = "w \<lparr> resolved := resolved w @ [(contextMenuSongId w, contextMenuContentType w)] \<rparr>"
  have w1: "resolved ?w1 = resolved w @ [captured w]" by (simp add: captured_def)
  show ?thesis
  proof (cases "fromId h (contextMenuSongId w) (contextMenuContentType w)")
    case Throws
    with assms w1 show ?thesis by (simp add: click_timeout_def)
  next
    case r: (Returns r)
    show ?thesis
    proof (cases r)
      case None
      with assms r w1 show ?thesis by (simp add: click_timeout_def)
    next
      case (Some mediaItem)
      show ?thesis
      proof (cases "showPlaylistSelector h mediaItem ?w1")
        case Throws
        with assms r Some w1 show ?thesis by (simp add: click_timeout_def)
      next
        case (Returns w2)
        from resolved_showPlaylistSelector [OF this] w1
        have "resolved w2 = resolved w @ [captured w]" by simp
        with assms r Some Returns show ?thesis by (simp add: click_timeout_def)
      qed
    qed
  qed
qed

text \<open>
  C5 (as amended). The click handler and its deferred body do not clear the captured
  identity: after a click and any lapse of time, and again after a second click, the
  identifier and the content type are the ones captured before; and whenever the
  deferred body finds a (truthy) identifier, it resolves that identity once more, so a
  second click without a new opening of the menu finds the same identity.
\<close>

theorem captured_identity_survives_click:
  "captured (run_until h t (onClick w)) = captured w \<and>
   captured (run_until h t' (onClick (run_until h t (onClick w)))) = captured w \<and>
   (truthy (contextMenuSongId w) \<longrightarrow>
      resolved (click_timeout h w) = resolved w @ [captured w] \<and>
      resolved (click_timeout h (click_timeout h w)) = resolved w @ [captured w, captured w])"
proof -
  have click: "captured (onClick w') = captured w'" for w'
    by (simp add: captured_def onClick_def)
  have twice: "resolved (click_timeout h (click_timeout h w)) =
      resolved w @ [captured w, captured w]" if "truthy (contextMenuSongId w)"
  proof -
    have "captured (click_timeout h w) = captured w" by simp
    then have "contextMenuSongId (click_timeout h w) = contextMenuSongId w"
      by (simp add: captured_def)
    with that have "truthy (contextMenuSongId (click_timeout h w))" by simp
    from resolved_click_timeout [OF this] resolved_click_timeout [OF that]
    show ?thesis by simp
  qed
  show ?thesis
    by (simp add: captured_run_until click resolved_click_timeout twice)
qed

theorem captured_identity_survives_click_witness:
  "truthy (contextMenuSongId armed) \<and>
   captured (run_until flaky 100 (onClick armed)) = (Str ''s1'', ''track'') \<and>
   resolved (click_timeout flaky (click_timeout flaky armed)) =
     [(Str ''s1'', ''track''), (Str ''s1'', ''track'')]"
proof -
  have a: "truthy (contextMenuSongId armed)"
    by (simp add: armed_def onMediaItem_def init_def)
  have b: "captured armed = (Str ''s1'', ''track'')" "resolved armed = []"
    by (simp_all add: armed_def onMediaItem_def init_def captured_def)
  from captured_identity_survives_click [of flaky 100 armed 200] a b
  show ?thesis by simp
qed

theorem second_click_resolves_again_counterexample:
  "contextMenuSongId (run_until flaky 100 (onClick armed)) = Str ''s1'' \<and>
   contextMenuSongId (run_until flaky 100 (onClick armed)) \<noteq> Null \<and>
   resolved (run_until flaky 200 (onClick (run_until flaky 100 (onClick armed)))) =
     [(Str ''s1'', ''track''), (Str ''s1'', ''track'')] \<and>
   shown (run_until flaky 200 (onClick (run_until flaky 100 (onClick armed)))) = [] \<and>
   length (overlays (run_until flaky 200 (onClick (run_until flaky 100 (onClick armed))))) = 2"
  by code_simp

subsection \<open>Song details of the modal\<close>

lemma songTitle_missing: "song_title song = None \<Longrightarrow> songTitle song = Returns ''Unknown Song''"
  by (simp add: songTitle_def)

lemma songArtist_throws: "song_artist song = Some Throws \<Longrightarrow> songArtist song = ''Unknown Artist''"
  by (simp add: songArtist_def)

lemma songArtist_missing:
  "song_artist song = None \<Longrightarrow> song_artists song = None \<Longrightarrow> songArtist song = ''Unknown Artist''"
  by (simp add: songArtist_def)

text \<open>Whatever the artist lookups do, the modal opens once the title is resolved.\<close>

lemma showPlaylistSelector_opens:
  "songTitle song = Returns t \<Longrightarrow>
     \<exists>w'. showPlaylistSelector h song w = Returns w' \<and>
          length (overlays w') = Suc (length (overlays w))"
  by (cases "overlays w") (simp_all add: showPlaylistSelector_def populatePlaylistList_def Let_def)

lemma showPlaylistSelector_title_throws:
  "songTitle song = Throws \<Longrightarrow> showPlaylistSelector h song w = Throws"
  by (simp add: showPlaylistSelector_def)

text \<open>
  C6 fails on the code for the title. A song whose \<open>title()\<close> rejects makes
  \<open>showPlaylistSelector\<close> throw before the overlay is appended: the click on the armed
  button ends with the notification "Error loading song information" and no modal,
  where the claim has the modal open with "Unknown Song". (A failing artist lookup does
  degrade to "Unknown Artist", as the lemmas above show.)
\<close>

theorem title_failure_aborts_modal:
  "songTitle untitled = Throws \<and>
   showPlaylistSelector forgetful untitled init = Throws \<and>
   overlays (run_until forgetful 100 (onClick armed)) = [] \<and>
   shown (run_until forgetful 100 (onClick armed)) =
     [(''Error loading song information'', Error)]"
  by code_simp

subsection \<open>The life of a toast\<close>

lemma click_timeout_frame:
  "clock (click_timeout h w) = clock w \<and>
   next_node w \<le> next_node (click_timeout h w) \<and>
   set (timers w) \<subseteq> set (timers (click_timeout h w)) \<and>
   toast_id ` set (toasts (click_timeout h w)) \<subseteq> insert (next_node w) (toast_id ` set (toasts w))"
proof -
  have notice: "clock (showNotification m Error w1) = clock w \<and>
      next_node w \<le> next_node (showNotification m Error w1) \<and>
      set (timers w) \<subseteq> set (timers (showNotification m Error w1)) \<and>
      toast_id ` set (toasts (showNotification m Error w1)) \<subseteq>
        insert (next_node w) (toast_id ` set (toasts w))"
    if "clock w1 = clock w" "next_node w1 = next_node w" "timers w1 = timers w"
      "toasts w1 = toasts w" for m w1
    using that by (auto simp: showNotification_def)
  have modal: "clock w2 = clock w \<and> next_node w \<le> next_node w2 \<and>
      set (timers w) \<subseteq> set (timers w2) \<and>
      toast_id ` set (toasts w2) \<subseteq> insert (next_node w) (toast_id ` set (toasts w))"
    if "showPlaylistSelector h song w1 = Returns w2" "clock w1 = clock w"
      "next_node w1 = next_node w" "timers w1 = timers w" "toasts w1 = toasts w" for song w1 w2
    using that
    by (auto simp: showPlaylistSelector_def populatePlaylistList_def Let_def
        split: call.splits list.splits)
  show ?thesis
  proof (cases "truthy (contextMenuSongId w)")
    case False
    with notice [of w "''No song selected''"] show ?thesis by (simp add: click_timeout_def)
  next
    case True
    let ?w1 = "w \<lparr> resolved := resolved w @ [(contextMenuSongId w, contextMenuContentType w)] \<rparr>"
    show ?thesis
    proof (cases "fromId h (contextMenuSongId w) (contextMenuContentType w)")
      case Throws
      with True notice [of ?w1 "''Error loading song information''"] show ?thesis
        by (simp add: click_timeout_def)
    next
      case r: (Returns r)
      show ?thesis
      proof (cases r)
        case None
        with True r notice [of ?w1 "''Could not load song information''"] show ?thesis
          by (simp add: click_timeout_def)
      next
        case (Some mediaItem)
        show ?thesis
        proof (cases "showPlaylistSelector h mediaItem ?w1")
          case Throws
          with True r Some notice [of ?w1 "''Error loading song information''"] show ?thesis
            by (simp add: click_timeout_def)
        next
          case (Returns w2)
          from modal [OF this] True r Some Returns show ?thesis
            by (simp add: click_timeout_def)
        qed
      qed
    qed
  qed
qed

lemma run_task_clock: "clock (run_task h task w) = clock w"
  by (cases task) (simp_all add: click_timeout_frame set_transform_def)

lemma run_task_next_node: "next_node w \<le> next_node (run_task h task w)"
  by (cases task) (simp_all add: click_timeout_frame set_transform_def)

lemma run_task_timers: "x \<in> set (timers w) \<Longrightarrow> x \<in> set (timers (run_task h task w))"
proof (cases task)
  case ClickTimeout
  assume "x \<in> set (timers w)"
  with click_timeout_frame [of h w] ClickTimeout show ?thesis by auto
qed (simp_all add: set_transform_def)

lemma run_task_attached:
  assumes "n < next_node w" and "attached n (run_task h task w)"
  shows "attached n w"
proof (cases task)
  case ClickTimeout
  with assms click_timeout_frame [of h w] show ?thesis by (auto simp: attached_def)
next
  case (AnimateIn m)
  with assms(2) show ?thesis by (auto simp: attached_def set_transform_def split: if_splits)
next
  case (AutoRemove m)
  with assms(2) show ?thesis by (auto simp: attached_def set_transform_def split: if_splits)
next
  case (Detach m)
  with assms(2) show ?thesis by (auto simp: attached_def split: if_splits)
qed

lemma run_task_Detach: "\<not> attached n (run_task h (Detach n) w)"
  by (auto simp: attached_def)

lemma run_task_AutoRemove: "(clock w + 200, Detach n) \<in> set (timers (run_task h (AutoRemove n) w))"
  by simp

lemma removal_pending_step:
  assumes inv: "removal_pending n T w"
    and e: "earliest (timers w) = Some (due, task)"
  shows "removal_pending n T
           (run_task h task (w \<lparr> timers := remove1 (due, task) (timers w),
                                  clock := max (clock w) due \<rparr>))"
proof -
  let ?w0 = "w \<lparr> timers := remove1 (due, task) (timers w), clock := max (clock w) due \<rparr>"
  let ?w' = "run_task h task ?w0"
  from inv have n: "n < next_node w" by (simp add: removal_pending_def)
  then have n0: "n < next_node ?w0" by simp
  with run_task_next_node [of ?w0 h task] have n': "n < next_node ?w'" by simp
  have clock': "clock ?w' = max (clock w) due" by (simp add: run_task_clock)
  have keep: "x \<in> set (timers ?w')" if "x \<in> set (timers w)" "x \<noteq> (due, task)" for x
  proof -
    from that have "x \<in> set (timers ?w0)" by simp
    then show ?thesis by (rule run_task_timers)
  qed
  show ?thesis
  proof (cases "attached n ?w'")
    case False
    with n' show ?thesis by (simp add: removal_pending_def)
  next
    case True
    with n0 have "attached n ?w0" by (rule run_task_attached)
    then have "attached n w" by (simp add: attached_def)
    with inv consider
        (detach) d where "(d, Detach n) \<in> set (timers w)" "d \<le> T"
      | (auto_remove) d where "(d, AutoRemove n) \<in> set (timers w)" "clock w \<le> d" "d + 200 \<le> T"
      by (auto simp: removal_pending_def)
    then show ?thesis
    proof cases
      case detach
      show ?thesis
      proof (cases "(d, Detach n) = (due, task)")
        case True
        then have "task = Detach n" by simp
        then have "\<not> attached n ?w'" by (simp only: run_task_Detach not_False_eq_True)
        with n' show ?thesis by (simp add: removal_pending_def)
      next
        case False
        with detach(1) have "(d, Detach n) \<in> set (timers ?w')" by (rule keep)
        with detach(2) n' show ?thesis unfolding removal_pending_def by blast
      qed
    next
      case auto_remove
      from earliest_le [OF e auto_remove(1)] have due: "due \<le> d" by simp
      show ?thesis
      proof (cases "(d, AutoRemove n) = (due, task)")
        case True
        then have "task = AutoRemove n" and "due = d" by simp_all
        with auto_remove(2) have "clock ?w0 + 200 = d + 200" by (simp add: max_def)
        with run_task_AutoRemove [of ?w0 n h] \<open>task = AutoRemove n\<close>
        have "(d + 200, Detach n) \<in> set (timers ?w')" by simp
        with auto_remove(3) n' show ?thesis unfolding removal_pending_def by blast
      next
        case False
        with auto_remove(1) have "(d, AutoRemove n) \<in> set (timers ?w')" by (rule keep)
        moreover from due auto_remove(2) clock' have "clock ?w' \<le> d" by simp
        ultimately show ?thesis using auto_remove(3) n' unfolding removal_pending_def by blast
      qed
    qed
  qed
qed

lemma removal_pending_quiescent:
  assumes "removal_pending n t w" and "\<forall>x \<in> set (timers w). t < fst x"
  shows "\<not> attached n w"
proof
  assume "attached n w"
  with assms(1) consider
      (detach) d where "(d, Detach n) \<in> set (timers w)" "d \<le> t"
    | (auto_remove) d where "(d, AutoRemove n) \<in> set (timers w)" "d + 200 \<le> t"
    by (auto simp: removal_pending_def)
  then show False
  proof cases
    case detach
    with assms(2) have "t < d" by fastforce
    with detach(2) show False by simp
  next
    case auto_remove
    with assms(2) have "t < d" by fastforce
    with auto_remove(2) show False by simp
  qed
qed

text \<open>When time has passed until \<open>t\<close>, an element whose removal was pending by \<open>t\<close> is
  detached.\<close>

lemma run_until_invariant:
  "removal_pending n t w \<Longrightarrow> \<not> attached n (run_until h t w)"
proof (induction h t w rule: run_until.induct)
  case (1 h t w)
  show ?case
  proof (cases "earliest (timers w)")
    case None
    then have idle: "timers w = []" by (simp add: earliest_None)
    with "1.prems" have "\<not> attached n w"
      by (intro removal_pending_quiescent [of n t]) simp_all
    with idle show ?thesis by (simp add: run_until_idle attached_def)
  next
    case (Some x)
    obtain due task where x: "x = (due, task)" by (cases x)
    from Some x have e: "earliest (timers w) = Some (due, task)" by simp
    show ?thesis
    proof (cases "due \<le> t")
      case True
      let ?w0 = "w \<lparr> timers := remove1 (due, task) (timers w), clock := max (clock w) due \<rparr>"
      from removal_pending_step [OF "1.prems" e]
      have "removal_pending n t (run_task h task ?w0)" .
      with Some x True have "\<not> attached n (run_until h t (run_task h task ?w0))"
        by (intro "1.IH") simp_all
      with run_until_step [OF e True, of h] show ?thesis by simp
    next
      case False
      have "t < fst y" if "y \<in> set (timers w)" for y
        using earliest_le [OF e that] False by simp
      with "1.prems" have "\<not> attached n w"
        by (intro removal_pending_quiescent [of n t]) simp_all
      with run_until_stop [OF e, of t h] False show ?thesis by (simp add: attached_def)
    qed
  qed
qed

lemma removal_pending_showNotification:
  "clock w + 3000 + 200 \<le> t \<Longrightarrow> removal_pending (next_node w) t (showNotification message type w)"
proof -
  assume "clock w + 3000 + 200 \<le> t"
  moreover have "(clock w + 3000, AutoRemove (next_node w)) \<in>
      set (timers (showNotification message type w))" by simp
  moreover have "clock (showNotification message type w) = clock w"
    and "next_node (showNotification message type w) = Suc (next_node w)"
    by (simp_all add: showNotification_def)
  ultimately show ?thesis unfolding removal_pending_def by auto
qed

text \<open>
  C9. Whatever the message and the severity, and whatever else is pending on the page,
  \<open>showNotification\<close> appends a toast to the document, and once the timers have run for
  the dismiss delay (3000 ms) plus the exit transition (200 ms) the toast is no longer
  in the document. Time is the clock of the timer queue: a callback runs at its due time.
\<close>

theorem toast_removed_after_dismiss_delay:
  "attached (next_node w) (showNotification message type w) \<and>
   (clock w + 3000 + 200 \<le> t \<longrightarrow>
      \<not> attached (next_node w) (run_until h t (showNotification message type w)))"
proof (intro conjI impI)
  show "attached (next_node w) (showNotification message type w)"
    by (simp add: attached_def showNotification_def)
next
  assume "clock w + 3000 + 200 \<le> t"
  then have "removal_pending (next_node w) t (showNotification message type w)"
    by (rule removal_pending_showNotification)
  then show "\<not> attached (next_node w) (run_until h t (showNotification message type w))"
    by (rule run_until_invariant)
qed

theorem toast_removed_after_dismiss_delay_witness:
  "clock init + 3000 + 200 \<le> 3200 \<and>
   attached (next_node init) (showNotification ''Saved'' Success init) \<and>
   attached (next_node init) (run_until flaky 3199 (showNotification ''Saved'' Success init)) \<and>
   \<not> attached (next_node init) (run_until flaky 3200 (showNotification ''Saved'' Success init))"
proof -
  have a: "clock init + 3000 + 200 \<le> 3200"
    by (simp add: init_def)
  have b: "attached (next_node init) (run_until flaky 3199 (showNotification ''Saved'' Success init))"
    by code_simp
  from toast_removed_after_dismiss_delay [of init "''Saved''" Success 3200 flaky] a b
  show ?thesis by simp
qed

end
